theory Spec2Isabelle
  imports Main "HOL-Library.Word"
begin

unbundle bit_operations_syntax

section \<open>Subscriber-group key distributor (dist\_sgkey.hpp)\<close>

text \<open>
  A shallow embedding of \<^verbatim>\<open>struct DistSGKey\<close>. The distributor is single threaded:
  every handler runs to completion, so each method is a function from the state before
  the call to the state after it. What the distributor does to its collaborators (the
  publications handed to syncps, the subscriptions, the timers it arms, the callbacks
  to its parent) is recorded in fields of the state, in call order.
\<close>

subsection \<open>Data\<close>

type_synonym u8 = "8 word"
type_synonym bytes = "u8 list"

text \<open>\<^verbatim>\<open>thumbPrint\<close> is a fixed-size \<^verbatim>\<open>std::array<uint8_t, N>\<close>; \<^verbatim>\<open>xmpk\<close>,
  \<^verbatim>\<open>encSGK\<close> and \<^verbatim>\<open>keyVal\<close> are byte arrays and vectors.\<close>

type_synonym thumbPrint = bytes
type_synonym xmpk = bytes
type_synonym encSGK = bytes
type_synonym keyVal = bytes
type_synonym egkr = "thumbPrint \<times> encSGK"

text \<open>Durations are \<^verbatim>\<open>std::chrono::milliseconds\<close>; time points of the system clock are
  counted in microseconds.\<close>

type_synonym msec = nat
type_synonym tstamp = nat

text \<open>
  The byte codec of TLV blocks (tlv\_encoder.hpp, tlv\_parser.hpp) is not part of the
  distributor. A block is kept as its type number and its decoded value:
  \<^verbatim>\<open>addNumber\<close> writes a \<open>TlvNumber\<close>, \<^verbatim>\<open>addArray\<close> of bytes a \<open>TlvArray\<close>,
  \<^verbatim>\<open>addArray\<close> of key records a \<open>TlvRecords\<close>.
\<close>

datatype tlv_val = TlvNumber "64 word" | TlvArray bytes | TlvRecords "egkr list"

type_synonym tlvBlk = "nat \<times> tlv_val"

text \<open>A key-record publication: the components of its name after \<^verbatim>\<open>m_krPrefix\<close>
  (epoch, low and high thumbprint identifiers, timestamp), its content and the
  thumbprint of its signer from the signature info.\<close>

record rPub =
  pub_thumbprint :: thumbPrint
  pub_epoch :: "64 word"
  pub_tpl :: bytes
  pub_tph :: bytes
  pub_ts :: tstamp
  pub_content :: "tlvBlk list"

text \<open>What is handed to \<^verbatim>\<open>m_sync.publish\<close>: a key record, or a membership request
  (name \<^verbatim>\<open>m_mrPrefix/<timestamp>\<close>, empty content, signed by the local identity).\<close>

datatype crData = KeyRecPub rPub | MemReqPub thumbPrint tstamp

text \<open>The callbacks the distributor hands to \<^verbatim>\<open>m_sync.schedule\<close> and
  \<^verbatim>\<open>m_sync.oneTime\<close>.\<close>

datatype timer_cb = MRRefresh | DelayedMR | ReKey

datatype topic = KRTopic | MRTopic

record DistSGKey =
  m_tp :: thumbPrint
  m_kmtp :: thumbPrint
  m_pDecKey :: keyVal
  m_sDecKey :: keyVal
  m_sgSK :: keyVal
  m_sgPK :: keyVal
  m_curKeyCT :: "64 word"
  m_mbrList :: "(thumbPrint \<times> xmpk) list"
  m_reKeyInt :: msec
  m_keyRand :: msec
  m_keyLifetime :: msec
  m_KMepoch :: "32 word"
  m_keyMaker :: bool
  m_subr :: bool
  m_init :: bool
  m_pubdist :: bool
  m_mrPending :: bool
  m_mrRefresh :: "nat option"
  published :: "(crData \<times> bool) list"
  subscribed :: "topic list"
  timers :: "(nat \<times> timer_cb \<times> msec) list"
  next_timer :: nat
  newKeyCalls :: "(keyVal \<times> keyVal \<times> 64 word) list"
  connCalls :: "bool list"

subsection \<open>Collaborators\<close>

text \<open>
  The certificate store, the capability checkers built from it and libsodium are outside
  the distributor; their answers are parameters. \<open>kmpri\<close> is the callback \<^verbatim>\<open>m_kmpri\<close>
  installed by \<^verbatim>\<open>setup\<close>, \<open>sgMem\<close> the callback \<^verbatim>\<open>m_sgMem\<close> installed by
  \<^verbatim>\<open>updateSigningKey\<close>, \<open>certs_relay tp\<close> the test
  \<^verbatim>\<open>m_certs[tp].name()[1].toSv() == "relay"\<close>, \<open>collName_pubs\<close> the test
  \<^verbatim>\<open>m_sync.collName_.last().toSv() == "pubs"\<close>. The two key conversions take the input
  key and the old content of the output buffer and give libsodium's return code and the
  content of the buffer after the call.
\<close>

record collab =
  kmpri :: "thumbPrint \<Rightarrow> int"
  sgMem :: "thumbPrint \<Rightarrow> bool"
  certs_Chains0 :: thumbPrint
  certs_contains :: "thumbPrint \<Rightarrow> bool"
  certs_validUntil :: "thumbPrint \<Rightarrow> tstamp"
  certs_content :: "thumbPrint \<Rightarrow> bytes"
  certs_relay :: "thumbPrint \<Rightarrow> bool"
  collName_pubs :: bool
  crypto_box_seal :: "keyVal \<Rightarrow> xmpk \<Rightarrow> encSGK"
  crypto_box_seal_open :: "encSGK \<Rightarrow> keyVal \<Rightarrow> keyVal \<Rightarrow> keyVal option"
  crypto_sign_ed25519_pk_to_curve25519 :: "bytes \<Rightarrow> bytes \<Rightarrow> int \<times> bytes"
  crypto_sign_ed25519_sk_to_curve25519 :: "bytes \<Rightarrow> bytes \<Rightarrow> int \<times> bytes"

text \<open>A signing certificate as \<^verbatim>\<open>updateSigningKey\<close> reads it: its computed thumbprint
  and its content, the public signing key.\<close>

record rCert =
  computeThumbPrint :: thumbPrint
  cert_content :: bytes

datatype error = runtime_error string | undefined_behaviour

subsection \<open>Sizes\<close>

text \<open>libsodium's constants.\<close>

definition crypto_kx_PUBLICKEYBYTES :: nat where
  "crypto_kx_PUBLICKEYBYTES = 32"

definition crypto_kx_SECRETKEYBYTES :: nat where
  "crypto_kx_SECRETKEYBYTES = 32"

definition crypto_box_SEALBYTES :: nat where
  "crypto_box_SEALBYTES = 48"

definition crypto_scalarmult_curve25519_BYTES :: nat where
  "crypto_scalarmult_curve25519_BYTES = 32"

definition kxpkKeySz :: "32 word" where
  "kxpkKeySz = of_nat crypto_kx_PUBLICKEYBYTES"

definition kxskKeySz :: "32 word" where
  "kxskKeySz = of_nat crypto_kx_SECRETKEYBYTES"

definition encSGKeySz :: "64 word" where
  "encSGKeySz = of_nat crypto_box_SEALBYTES + ucast kxskKeySz"

text \<open>
  \<^verbatim>\<open>static constexpr int maxKR = (maxPubSize - kxpkKeySz - 8 - 96) / (sizeof(thumbPrint) + encSGKeySz);\<close>
  \<^verbatim>\<open>maxPubSize\<close> (syncps.hpp) and \<^verbatim>\<open>thumbPrint\<close> (sigmgr\_defs.hpp) are declared outside
  this file, so the constant is a function of \<^verbatim>\<open>maxPubSize\<close> and of
  \<^verbatim>\<open>sizeof(thumbPrint)\<close>. \<^verbatim>\<open>kxpkKeySz\<close> is a \<^verbatim>\<open>uint32_t\<close>, which makes the subtractions
  unsigned 32-bit ones; the divisor is a \<^verbatim>\<open>size_t\<close>, so the division is a 64-bit
  unsigned one; the quotient is then narrowed to \<^verbatim>\<open>int\<close>.
\<close>

definition maxKR :: "32 word \<Rightarrow> 64 word \<Rightarrow> int" where
  "maxKR maxPubSize sizeof_thumbPrint =
     sint (ucast ((ucast (maxPubSize - kxpkKeySz - 8 - 96) :: 64 word)
                    div (sizeof_thumbPrint + encSGKeySz)) :: 32 word)"

text \<open>The formula of the specification, on the integers: \<open>div\<close> rounds down.\<close>

definition maxKR_spec :: "int \<Rightarrow> int \<Rightarrow> int \<Rightarrow> int \<Rightarrow> int \<Rightarrow> int" where
  "maxKR_spec maxPubSize pk_size ct_size overhead record_size =
     (maxPubSize - pk_size - ct_size - overhead) div record_size"


subsection \<open>Ordering of thumbprints and of name components\<close>

text \<open>\<^verbatim>\<open>m_tp < p.thumbprint()\<close> is the comparison of two \<^verbatim>\<open>std::array<uint8_t, N>\<close>:
  \<^verbatim>\<open>std::lexicographical_compare\<close> on their bytes.\<close>

fun tp_less :: "thumbPrint \<Rightarrow> thumbPrint \<Rightarrow> bool" where
  "tp_less [] [] = False"
| "tp_less [] (y # ys) = True"
| "tp_less (x # xs) [] = False"
| "tp_less (x # xs) (y # ys) = (if x < y then True else if y < x then False else tp_less xs ys)"

text \<open>\<^verbatim>\<open>std::memcmp(a, b, n)\<close>: the sign of the first difference among the first \<open>n\<close>
  bytes, read as unsigned.\<close>

fun memcmp :: "bytes \<Rightarrow> bytes \<Rightarrow> nat \<Rightarrow> int" where
  "memcmp (x # xs) (y # ys) (Suc n) =
     (if x < y then - 1 else if y < x then 1 else memcmp xs ys n)"
| "memcmp xs ys n = 0"

text \<open>The lambda \<^verbatim>\<open>less\<close> of \<^verbatim>\<open>receiveSGKeyRecords\<close>.\<close>

definition less_span :: "bytes \<Rightarrow> bytes \<Rightarrow> bool" where
  "less_span a b =
     (let asz = length a; bsz = length b;
          r = memcmp a b (if asz \<le> bsz then asz else bsz)
      in if r = 0 then asz < bsz else r < 0)"

subsection \<open>The member table\<close>

text \<open>\<^verbatim>\<open>std::map<thumbPrint,xmpk> m_mbrList\<close> is kept as the list of its entries in
  iteration order, which is the order of the keys.\<close>

fun mbr_insert :: "thumbPrint \<Rightarrow> xmpk \<Rightarrow> (thumbPrint \<times> xmpk) list \<Rightarrow> (thumbPrint \<times> xmpk) list" where
  "mbr_insert k v [] = [(k, v)]"
| "mbr_insert k v ((k', v') # m) =
     (if tp_less k k' then (k, v) # (k', v') # m
      else if k = k' then (k, v) # m
      else (k', v') # mbr_insert k v m)"

text \<open>\<^verbatim>\<open>m_mbrList[tp]\<close> on a missing key adds a value-initialised entry; this is the
  content of the entry the reference denotes.\<close>

definition mbr_at :: "thumbPrint \<Rightarrow> (thumbPrint \<times> xmpk) list \<Rightarrow> xmpk" where
  "mbr_at k m =
     (case map_of m k of Some v \<Rightarrow> v
      | None \<Rightarrow> replicate crypto_scalarmult_curve25519_BYTES 0)"

definition mbr_erase :: "thumbPrint \<Rightarrow> (thumbPrint \<times> xmpk) list \<Rightarrow> (thumbPrint \<times> xmpk) list" where
  "mbr_erase k m = filter (\<lambda>kv. fst kv \<noteq> k) m"

subsection \<open>syncps: publications, subscriptions, timers\<close>

definition publish :: "crData \<Rightarrow> bool \<Rightarrow> DistSGKey \<Rightarrow> DistSGKey" where
  "publish p conf s = s\<lparr>published := published s @ [(p, conf)]\<rparr>"

definition subscribe :: "topic \<Rightarrow> DistSGKey \<Rightarrow> DistSGKey" where
  "subscribe t s = s\<lparr>subscribed := subscribed s @ [t]\<rparr>"

definition unsubscribe :: "topic \<Rightarrow> DistSGKey \<Rightarrow> DistSGKey" where
  "unsubscribe t s = s\<lparr>subscribed := removeAll t (subscribed s)\<rparr>"

text \<open>\<^verbatim>\<open>m_sync.schedule\<close> arms a timer and returns its handle; \<^verbatim>\<open>oneTime\<close> drops the
  handle. \<^verbatim>\<open>cancel\<close> on a handle whose timer has fired, or that was never armed
  (\<open>None\<close>, the \<^verbatim>\<open>Timer\<close> \<^verbatim>\<open>m_mrRefresh\<close> is initialised with), does nothing.\<close>

definition schedule :: "msec \<Rightarrow> timer_cb \<Rightarrow> DistSGKey \<Rightarrow> nat \<times> DistSGKey" where
  "schedule d cb s =
     (next_timer s,
      s\<lparr>timers := timers s @ [(next_timer s, cb, d)], next_timer := Suc (next_timer s)\<rparr>)"

definition oneTime :: "msec \<Rightarrow> timer_cb \<Rightarrow> DistSGKey \<Rightarrow> DistSGKey" where
  "oneTime d cb s = snd (schedule d cb s)"

definition cancel :: "nat option \<Rightarrow> DistSGKey \<Rightarrow> DistSGKey" where
  "cancel h s =
     (case h of None \<Rightarrow> s
      | Some i \<Rightarrow> s\<lparr>timers := filter (\<lambda>t. fst t \<noteq> i) (timers s)\<rparr>)"

text \<open>The callbacks to the parent: \<^verbatim>\<open>m_newKeyCb\<close> and \<^verbatim>\<open>m_connCb\<close>.\<close>

definition newKeyCb :: "keyVal \<Rightarrow> keyVal \<Rightarrow> 64 word \<Rightarrow> DistSGKey \<Rightarrow> DistSGKey" where
  "newKeyCb pk sk ct s = s\<lparr>newKeyCalls := newKeyCalls s @ [(pk, sk, ct)]\<rparr>"

definition connCb :: "bool \<Rightarrow> DistSGKey \<Rightarrow> DistSGKey" where
  "connCb b s = s\<lparr>connCalls := connCalls s @ [b]\<rparr>"

subsection \<open>Membership requests\<close>

definition publishMembershipReq :: "tstamp \<Rightarrow> DistSGKey \<Rightarrow> DistSGKey" where
  "publishMembershipReq now s =
     (let s = cancel (m_mrRefresh s) s in
      if \<not> m_subr s then s
      else
        let s = s\<lparr>m_mrPending := True\<rparr>;
            s = publish (MemReqPub (m_tp s) now) False s;
            (h, s) = schedule (m_keyLifetime s) MRRefresh s
        in s\<lparr>m_mrRefresh := Some h\<rparr>)"

definition receivedGK :: "DistSGKey \<Rightarrow> DistSGKey" where
  "receivedGK s = (cancel (m_mrRefresh s) s)\<lparr>m_mrPending := False\<rparr>"

definition initDone :: "DistSGKey \<Rightarrow> DistSGKey" where
  "initDone s = (if m_init s then connCb True (s\<lparr>m_init := False\<rparr>) else s)"

subsection \<open>The local signing key\<close>

text \<open>\<^verbatim>\<open>std::runtime_error(...);\<close> as a statement builds an exception object and drops
  it: nothing is thrown.\<close>

definition std_runtime_error :: "string \<Rightarrow> DistSGKey \<Rightarrow> DistSGKey" where
  "std_runtime_error msg s = s"

definition resize :: "nat \<Rightarrow> bytes \<Rightarrow> bytes" where
  "resize n v = take n v @ replicate (n - length v) 0"

definition updateSigningKey ::
    "collab \<Rightarrow> tstamp \<Rightarrow> keyVal \<Rightarrow> rCert \<Rightarrow> DistSGKey \<Rightarrow> error + DistSGKey" where
  "updateSigningKey env now sk pubCert s =
     (let s = s\<lparr>m_tp := certs_Chains0 env\<rparr> in
      if m_tp s \<noteq> computeThumbPrint pubCert
      then Inl (runtime_error ''dist_sgkey:updateSigningKey gets new key not at chains[0]'')
      else
        let s = (if m_subr s \<and> \<not> sgMem env (m_tp s)
                 then std_runtime_error ''DistSGKey::updateSigningKey subscriber group capability change indicates bad signing chain'' s
                 else s);
            s = s\<lparr>m_subr := sgMem env (m_tp s)\<rparr>
        in
          if \<not> m_subr s then Inr s
          else
            let ssk = take 32 sk;
                (rc, dk) = crypto_sign_ed25519_sk_to_curve25519 env ssk
                             (resize crypto_scalarmult_curve25519_BYTES (m_sDecKey s));
                s = s\<lparr>m_sDecKey := dk\<rparr>;
                s = (if rc \<noteq> 0
                     then std_runtime_error ''DistSGKey::updateSigningKey could not convert secret key'' s
                     else s);
                pk = cert_content pubCert;
                (rc, dk) = crypto_sign_ed25519_pk_to_curve25519 env pk
                             (resize crypto_scalarmult_curve25519_BYTES (m_pDecKey s));
                s = s\<lparr>m_pDecKey := dk\<rparr>;
                s = (if rc \<noteq> 0
                     then std_runtime_error ''DistSGKey::updateSigningKey unable to convert signing pk to sealed box pk'' s
                     else s)
            in
              if m_init s then Inr s
              else if \<not> m_keyMaker s then Inr (publishMembershipReq now s)
              else if 0 < kmpri env (m_tp s) then Inr (s\<lparr>m_kmtp := m_tp s\<rparr>)
              else Inr (std_runtime_error ''DistSGKey::updateSigningKey keymaker capability change indicates bad signing chain'' s))"

subsection \<open>Receiving key records\<close>

text \<open>The parser calls of the \<^verbatim>\<open>try\<close> block: \<^verbatim>\<open>content.nextBlk(t)\<close> gives the next
  block when its type is \<open>t\<close>, and the conversions give its value when the block holds
  one of that kind; \<open>None\<close> is the \<^verbatim>\<open>runtime_error\<close> the handler catches.\<close>

fun nextBlk :: "nat \<Rightarrow> tlvBlk list \<Rightarrow> (tlv_val \<times> tlvBlk list) option" where
  "nextBlk t [] = None"
| "nextBlk t ((t', v) # rest) = (if t' = t then Some (v, rest) else None)"

fun toNumber :: "tlv_val \<Rightarrow> 64 word option" where
  "toNumber (TlvNumber n) = Some n"
| "toNumber _ = None"

fun toSpan :: "tlv_val \<Rightarrow> bytes option" where
  "toSpan (TlvArray b) = Some b"
| "toSpan _ = None"

fun toSpan_egkr :: "tlv_val \<Rightarrow> egkr list option" where
  "toSpan_egkr (TlvRecords r) = Some r"
| "toSpan_egkr _ = None"

text \<open>The second half of \<^verbatim>\<open>receiveSGKeyRecords\<close>, from the \<^verbatim>\<open>try\<close> block on.\<close>

definition receiveSGKeyRecords_content :: "collab \<Rightarrow> rPub \<Rightarrow> DistSGKey \<Rightarrow> DistSGKey" where
  "receiveSGKeyRecords_content env p s =
     (case nextBlk 36 (pub_content p) of None \<Rightarrow> s
      | Some (b36, c1) \<Rightarrow>
     (case toNumber b36 of None \<Rightarrow> s
      | Some newCT \<Rightarrow>
        if newCT \<le> m_curKeyCT s then s
        else
     (case nextBlk 150 c1 of None \<Rightarrow> s
      | Some (b150, c2) \<Rightarrow>
     (case toSpan b150 of None \<Rightarrow> s
      | Some sgPK \<Rightarrow>
        if \<not> m_subr s then
          (let s = s\<lparr>m_curKeyCT := newCT\<rparr>;
               s = newKeyCb sgPK [] (m_curKeyCT s) s
           in if m_init s then initDone s else s)
        else
     (case nextBlk 130 c2 of None \<Rightarrow> s
      | Some (b130, c3) \<Rightarrow>
     (case toSpan_egkr b130 of None \<Rightarrow> s
      | Some gkrVec \<Rightarrow>
     (case find (\<lambda>r. fst r = m_tp s) gkrVec of None \<Rightarrow> s
      | Some it \<Rightarrow>
     (case crypto_box_seal_open env (snd it) (m_pDecKey s) (m_sDecKey s) of None \<Rightarrow> s
      | Some sgSK \<Rightarrow>
          (let s = s\<lparr>m_curKeyCT := newCT\<rparr>;
               s = newKeyCb sgPK sgSK (m_curKeyCT s) s;
               s = receivedGK s
           in if m_init s then initDone s else s)))))))))"

definition receiveSGKeyRecords :: "collab \<Rightarrow> tstamp \<Rightarrow> rPub \<Rightarrow> DistSGKey \<Rightarrow> DistSGKey" where
  "receiveSGKeyRecords env now p s =
     (if kmpri env (pub_thumbprint p) \<le> 0 then s
      else if m_keyMaker s then
        (if tp_less (m_tp s) (pub_thumbprint p)
         then publishMembershipReq now
                (unsubscribe MRTopic (s\<lparr>m_keyMaker := False, m_kmtp := pub_thumbprint p\<rparr>))
         else s)
      else if m_init s \<and> m_subr s \<and> \<not> m_mrPending s then publishMembershipReq now s
      else
        let epoch = pub_epoch p in
        if epoch \<noteq> ucast (m_KMepoch s) \<and> 1 < epoch then s
        else
          let s = (if epoch \<noteq> ucast (m_KMepoch s)
                   then s\<lparr>m_KMepoch := ucast epoch,
                          m_kmtp := replicate (length (m_kmtp s)) 0\<rparr>
                   else s);
              s = (if tp_less (m_kmtp s) (pub_thumbprint p)
                   then s\<lparr>m_curKeyCT := 0, m_kmtp := pub_thumbprint p\<rparr>
                   else s);
              newCT = (0 :: 64 word);
              tpl = pub_tpl p;
              tph = pub_tph p;
              tpId = take (length tpl) (m_tp s)
          in
            if m_subr s \<and> (less_span tpId tpl \<or> less_span tph tpId) then
              (if m_curKeyCT s < newCT \<and> \<not> m_mrPending s
               then oneTime 2000 DelayedMR s
               else s)
            else receiveSGKeyRecords_content env p s)"


subsection \<open>The key maker\<close>

text \<open>In the methods of the key maker \<open>mKR\<close> is the value of the constant
  \<^verbatim>\<open>maxKR\<close>. \<^verbatim>\<open>TP\<close> in \<^verbatim>\<open>publishKeyRange\<close> takes the first 4 bytes of a thumbprint;
  the publication is signed with the local key, and \<open>conf\<close> says that it is published
  with the confirmation callback \<^verbatim>\<open>[this](const auto&, bool f){ if(f) initDone(); }\<close>.\<close>

definition publishKeyRange ::
    "thumbPrint \<Rightarrow> thumbPrint \<Rightarrow> tstamp \<Rightarrow> tlvBlk list \<Rightarrow> bool \<Rightarrow> DistSGKey \<Rightarrow> DistSGKey" where
  "publishKeyRange tpl tph ts c conf s =
     publish (KeyRecPub \<lparr>pub_thumbprint = m_tp s, pub_epoch = ucast (m_KMepoch s),
                          pub_tpl = take 4 tpl, pub_tph = take 4 tph, pub_ts = ts,
                          pub_content = c\<rparr>) conf s"

text \<open>
  The \<^verbatim>\<open>for\<close> loop of \<^verbatim>\<open>makeSGKey\<close>, with its variables \<open>i\<close>, \<open>s\<close> and the
  iterator \<open>it\<close> (an index into \<open>pubPairs\<close>): \<open>p\<close> is the number of publications,
  \<open>r\<close> the number of records of this one. Reading \<open>pubPairs\<close> past its end, which
  C++ leaves undefined, is the result \<open>Inl undefined_behaviour\<close>. The counters are
  natural numbers; \<^verbatim>\<open>s -= r\<close> and \<^verbatim>\<open>l+r-1\<close> are written with the wrap-around of
  \<^verbatim>\<open>size_t\<close>.
\<close>

function makeSGKey_loop ::
    "nat \<Rightarrow> egkr list \<Rightarrow> tstamp \<Rightarrow> nat \<Rightarrow> nat \<Rightarrow> nat \<Rightarrow> nat \<Rightarrow> DistSGKey \<Rightarrow> error + DistSGKey" where
  "makeSGKey_loop mKR pubPairs pubTS p i s it st =
     (if i < p then
        (let r = (if i < p - 1 then mKR else s);
             sgkp = [(36, TlvNumber (m_curKeyCT st)), (150, TlvArray (m_sgPK st))]
         in
           if length (m_mbrList st) = 0 then
             Inr (publishKeyRange (m_tp st) (m_tp st) pubTS
                    (sgkp @ [(130, TlvRecords pubPairs)]) True st)
           else if length pubPairs < it + r then Inl undefined_behaviour
           else
             (let sgkp = sgkp @ [(130, TlvRecords (take r (drop it pubPairs)))];
                  l = i * mKR
              in
                if length pubPairs \<le> l \<or> l + r = 0 \<or> length pubPairs \<le> l + r - 1
                then Inl undefined_behaviour
                else
                  makeSGKey_loop mKR pubPairs pubTS p (Suc i)
                    (if r \<le> s then s - r else s + 2 ^ 64 - r) (it + r)
                    (publishKeyRange (fst (pubPairs ! l)) (fst (pubPairs ! (l + r - 1)))
                       pubTS sgkp False st)))
      else Inr st)"
  by pat_completeness auto
termination
  by (relation "measure (\<lambda>(mKR, pubPairs, pubTS, p, i, s, it, st). p - i)") auto

declare makeSGKey_loop.simps [simp del]

text \<open>The predicate of \<^verbatim>\<open>std::erase_if\<close> in \<^verbatim>\<open>makeSGKey\<close>: the member's certificate
  is missing from the store or no longer valid.\<close>

definition expired :: "collab \<Rightarrow> tstamp \<Rightarrow> thumbPrint \<times> xmpk \<Rightarrow> bool" where
  "expired env now kv =
     (if certs_contains env (fst kv) then certs_validUntil env (fst kv) \<le> now else True)"

text \<open>\<open>kp\<close> is the pair \<^verbatim>\<open>crypto_kx_keypair\<close> generates, \<open>ct\<close>, \<open>now\<close> and \<open>pubTS\<close>
  are the three readings of the system clock. The division that computes the number of
  publications is undefined for a zero \<^verbatim>\<open>maxKR\<close>.\<close>

definition makeSGKey ::
    "collab \<Rightarrow> nat \<Rightarrow> keyVal \<times> keyVal \<Rightarrow> tstamp \<Rightarrow> tstamp \<Rightarrow> tstamp \<Rightarrow> DistSGKey
      \<Rightarrow> error + DistSGKey" where
  "makeSGKey env mKR kp ct now pubTS st =
     (let st = st\<lparr>m_sgPK := fst kp, m_sgSK := snd kp\<rparr>;
          st = st\<lparr>m_curKeyCT := of_nat ct\<rparr>;
          st = st\<lparr>m_mbrList := filter (\<lambda>kv. \<not> expired env now kv) (m_mbrList st)\<rparr>;
          pubPairs = map (\<lambda>kv. (fst kv, crypto_box_seal env (m_sgSK st) (snd kv))) (m_mbrList st);
          st = newKeyCb (m_sgPK st) (m_sgSK st) (m_curKeyCT st) st;
          s = length (m_mbrList st)
      in
        if \<not> s \<le> mKR \<and> mKR = 0 then Inl undefined_behaviour
        else
          (let p = (if s \<le> mKR then 1 else (s + mKR - 1) div mKR) in
           case makeSGKey_loop mKR pubPairs pubTS p 0 s 0 st of
             Inl e \<Rightarrow> Inl e
           | Inr st \<Rightarrow>
               Inr (if m_init st \<and> length (m_mbrList st) \<noteq> 0 then initDone st else st)))"

type_synonym rekey_in = "(keyVal \<times> keyVal) \<times> tstamp \<times> tstamp \<times> tstamp"

definition makeSGKey_in :: "collab \<Rightarrow> nat \<Rightarrow> rekey_in \<Rightarrow> DistSGKey \<Rightarrow> error + DistSGKey" where
  "makeSGKey_in env mKR rk st =
     (case rk of (kp, ct, now, pubTS) \<Rightarrow> makeSGKey env mKR kp ct now pubTS st)"

definition sgkeyTimeout :: "collab \<Rightarrow> nat \<Rightarrow> rekey_in \<Rightarrow> DistSGKey \<Rightarrow> error + DistSGKey" where
  "sgkeyTimeout env mKR rk st =
     (if \<not> m_keyMaker st then Inr st
      else case makeSGKey_in env mKR rk st of
             Inl e \<Rightarrow> Inl e
           | Inr st \<Rightarrow> Inr (oneTime (m_reKeyInt st) ReKey st))"

text \<open>\<open>tp\<close> is \<^verbatim>\<open>p.thumbprint()\<close>, the signer of the membership request.\<close>

definition addGroupMem :: "collab \<Rightarrow> nat \<Rightarrow> tstamp \<Rightarrow> thumbPrint \<Rightarrow> DistSGKey \<Rightarrow> DistSGKey" where
  "addGroupMem env mKR now tp s =
     (if \<not> m_keyMaker s then s
      else if length (m_mbrList s) = 80 * mKR then s
      else if \<not> sgMem env tp then s
      else if m_pubdist s \<and> certs_relay env tp then s
      else
        let pk = certs_content env tp;
            (rc, x) = crypto_sign_ed25519_pk_to_curve25519 env pk (mbr_at tp (m_mbrList s));
            s = s\<lparr>m_mbrList := mbr_insert tp x (m_mbrList s)\<rparr>
        in
          if rc \<noteq> 0 then s\<lparr>m_mbrList := mbr_erase tp (m_mbrList s)\<rparr>
          else if m_curKeyCT s = 0 then s
          else
            let egKey = crypto_box_seal env (m_sgSK s) (mbr_at tp (m_mbrList s));
                ekp = [(tp, egKey)];
                sgkp = [(36, TlvNumber (m_curKeyCT s)), (150, TlvArray (m_sgPK s)),
                        (130, TlvRecords ekp)];
                s = publishKeyRange tp tp now sgkp False s
            in if m_init s then initDone s else s)"

definition removeGroupMem ::
    "collab \<Rightarrow> nat \<Rightarrow> thumbPrint \<Rightarrow> bool \<Rightarrow> rekey_in \<Rightarrow> DistSGKey \<Rightarrow> error + DistSGKey" where
  "removeGroupMem env mKR tp reKey rk s =
     (let s = s\<lparr>m_mbrList := mbr_erase tp (m_mbrList s)\<rparr>
      in if reKey then makeSGKey_in env mKR rk s else Inr s)"

subsection \<open>Construction, setup and the events of a run\<close>

text \<open>The constructor: the member initialisers, then \<^verbatim>\<open>updateSigningKey\<close>.\<close>

definition DistSGKey_ctor ::
    "collab \<Rightarrow> tstamp \<Rightarrow> keyVal \<Rightarrow> rCert \<Rightarrow> msec \<Rightarrow> msec \<Rightarrow> error + DistSGKey" where
  "DistSGKey_ctor env now sk pubCert reKeyInterval reKeyRandomize =
     updateSigningKey env now sk pubCert
       \<lparr>m_tp = certs_Chains0 env,
        m_kmtp = replicate (length (certs_Chains0 env)) 0,
        m_pDecKey = [], m_sDecKey = [], m_sgSK = [], m_sgPK = [],
        m_curKeyCT = 0, m_mbrList = [],
        m_reKeyInt = reKeyInterval, m_keyRand = reKeyRandomize,
        m_keyLifetime = reKeyInterval + reKeyRandomize,
        m_KMepoch = 0, m_keyMaker = False, m_subr = False, m_init = True,
        m_pubdist = collName_pubs env, m_mrPending = False, m_mrRefresh = None,
        published = [], subscribed = [], timers = [], next_timer = 0,
        newKeyCalls = [], connCalls = []\<rparr>"

text \<open>\<^verbatim>\<open>setup\<close>: an identity that may make keys joins the election, whose outcome arrives
  later through \<^verbatim>\<open>eDone\<close>; every other identity subscribes to the key records.\<close>

definition setup_ccb :: "collab \<Rightarrow> DistSGKey \<Rightarrow> DistSGKey" where
  "setup_ccb env s =
     (let s = (if collName_pubs env then s\<lparr>m_pubdist := True\<rparr> else s) in
      if m_pubdist s \<and> certs_relay env (m_tp s) then initDone s
      else if m_subr s \<and> 0 < kmpri env (m_tp s) then s
      else subscribe KRTopic s)"

definition eDone :: "collab \<Rightarrow> nat \<Rightarrow> bool \<Rightarrow> 32 word \<Rightarrow> rekey_in \<Rightarrow> DistSGKey \<Rightarrow> error + DistSGKey" where
  "eDone env mKR elected epoch rk s =
     (let s = s\<lparr>m_keyMaker := elected, m_KMepoch := epoch\<rparr>;
          s = subscribe KRTopic s
      in if \<not> elected then Inr s
         else sgkeyTimeout env mKR rk (subscribe MRTopic s))"

text \<open>A timer that fires is no longer armed; its callback runs.\<close>

definition timerFires :: "collab \<Rightarrow> nat \<Rightarrow> nat \<Rightarrow> tstamp \<Rightarrow> rekey_in \<Rightarrow> DistSGKey \<Rightarrow> error + DistSGKey" where
  "timerFires env mKR i now rk s =
     (case find (\<lambda>t. fst t = i) (timers s) of
        None \<Rightarrow> Inr s
      | Some t \<Rightarrow>
          (let s = s\<lparr>timers := filter (\<lambda>t. fst t \<noteq> i) (timers s)\<rparr> in
           case fst (snd t) of
             MRRefresh \<Rightarrow> Inr (publishMembershipReq now s)
           | DelayedMR \<Rightarrow> Inr (publishMembershipReq now s)
           | ReKey \<Rightarrow> sgkeyTimeout env mKR rk s))"

text \<open>What can happen to a distributor: the event loop delivers a key record or a
  membership request, a timer fires, syncps reports on the delivery of a key record
  published with confirmation, the election ends, or the parent calls
  \<^verbatim>\<open>removeGroupMem\<close>, \<^verbatim>\<open>updateSigningKey\<close> or \<^verbatim>\<open>setup\<close>. An exception of
  \<^verbatim>\<open>updateSigningKey\<close> leaves the handler after its first assignment.\<close>

datatype event =
    RecvKeyRec tstamp rPub
  | RecvMemReq tstamp thumbPrint
  | TimerFires nat tstamp rekey_in
  | Confirmed bool
  | ElectionDone bool "32 word" rekey_in
  | RemoveGroupMem thumbPrint bool rekey_in
  | UpdateSigningKey tstamp keyVal rCert
  | Setup

fun step :: "collab \<Rightarrow> nat \<Rightarrow> event \<Rightarrow> DistSGKey \<Rightarrow> error + DistSGKey" where
  "step env mKR (RecvKeyRec now p) s = Inr (receiveSGKeyRecords env now p s)"
| "step env mKR (RecvMemReq now tp) s = Inr (addGroupMem env mKR now tp s)"
| "step env mKR (TimerFires i now rk) s = timerFires env mKR i now rk s"
| "step env mKR (Confirmed f) s = Inr (if f then initDone s else s)"
| "step env mKR (ElectionDone elected epoch rk) s = eDone env mKR elected epoch rk s"
| "step env mKR (RemoveGroupMem tp reKey rk) s = removeGroupMem env mKR tp reKey rk s"
| "step env mKR (UpdateSigningKey now sk pubCert) s =
     (case updateSigningKey env now sk pubCert s of
        Inl e \<Rightarrow> Inr (s\<lparr>m_tp := certs_Chains0 env\<rparr>)
      | Inr s' \<Rightarrow> Inr s')"
| "step env mKR Setup s = Inr (setup_ccb env s)"

fun run :: "collab \<Rightarrow> nat \<Rightarrow> event list \<Rightarrow> DistSGKey \<Rightarrow> error + DistSGKey" where
  "run env mKR [] s = Inr s"
| "run env mKR (ev # evs) s =
     (case step env mKR ev s of Inl e \<Rightarrow> Inl e | Inr s' \<Rightarrow> run env mKR evs s')"


subsection \<open>Chunks of a list\<close>

text \<open>The partition of a list into pieces of \<open>k\<close> elements, the last one holding the
  rest: what the specification calls chunks of at most \<open>maxKR\<close> records.\<close>

function chunks :: "nat \<Rightarrow> 'a list \<Rightarrow> 'a list list" where
  "chunks k xs = (if k = 0 \<or> xs = [] then [] else take k xs # chunks k (drop k xs))"
  by pat_completeness auto
termination
  by (relation "measure (\<lambda>(k, xs). length xs)") auto

declare chunks.simps [simp del]

text \<open>The key-record publication that carries the records \<open>c\<close>, as
  \<^verbatim>\<open>makeSGKey\<close> builds it for one pass of its loop.\<close>

definition keyRangePub :: "DistSGKey \<Rightarrow> tstamp \<Rightarrow> egkr list \<Rightarrow> crData \<times> bool" where
  "keyRangePub st ts c =
     (KeyRecPub \<lparr>pub_thumbprint = m_tp st, pub_epoch = ucast (m_KMepoch st),
                  pub_tpl = take 4 (fst (hd c)), pub_tph = take 4 (fst (last c)),
                  pub_ts = ts,
                  pub_content = [(36, TlvNumber (m_curKeyCT st)), (150, TlvArray (m_sgPK st)),
                                 (130, TlvRecords c)]\<rparr>, False)"

subsection \<open>Example identities, collaborators and states\<close>

text \<open>Three 32-byte thumbprints: \<open>tpP\<close> and \<open>tpQ\<close> differ in their last byte only,
  so they share the 4-byte identifier used in names.\<close>

definition tpP :: thumbPrint where
  "tpP = [80, 17, 3, 99, 42, 7, 250, 61, 5, 128, 33, 76, 19, 204, 88, 2,
          147, 64, 31, 9, 111, 56, 23, 190, 71, 14, 222, 45, 100, 6, 37, 1]"

definition tpQ :: thumbPrint where
  "tpQ = [80, 17, 3, 99, 42, 7, 250, 61, 5, 128, 33, 76, 19, 204, 88, 2,
          147, 64, 31, 9, 111, 56, 23, 190, 71, 14, 222, 45, 100, 6, 37, 2]"

definition tpC :: thumbPrint where
  "tpC = [90, 201, 12, 77, 150, 8, 39, 66, 241, 4, 118, 27, 93, 180, 52, 11,
          70, 133, 29, 215, 3, 84, 160, 47, 22, 109, 58, 196, 13, 75, 36, 144]"

text \<open>A certificate store in which \<open>tpP\<close> and \<open>tpQ\<close> may make keys and every
  identity may subscribe; a toy sealed box that prefixes the message with the
  recipient's key; a key conversion that fails on the key of \<open>tpC\<close>.\<close>

definition env0 :: collab where
  "env0 = \<lparr>kmpri = (\<lambda>tp. if tp = tpP \<or> tp = tpQ then 5 else 0),
            sgMem = (\<lambda>tp. tp \<noteq> []),
            certs_Chains0 = tpP,
            certs_contains = (\<lambda>tp. True),
            certs_validUntil = (\<lambda>tp. 1000),
            certs_content = (\<lambda>tp. tp),
            certs_relay = (\<lambda>tp. False),
            collName_pubs = True,
            crypto_box_seal = (\<lambda>m pk. pk @ m),
            crypto_box_seal_open =
              (\<lambda>c pk sk. if take (length pk) c = pk then Some (drop (length pk) c) else None),
            crypto_sign_ed25519_pk_to_curve25519 =
              (\<lambda>pk buf. if pk = tpC then (- 1, buf) else (0, pk)),
            crypto_sign_ed25519_sk_to_curve25519 = (\<lambda>sk buf. (0, sk))\<rparr>"

text \<open>The identity \<open>tpP\<close> as a subscriber in its initial state.\<close>

definition st0 :: DistSGKey where
  "st0 = \<lparr>m_tp = tpP,
           m_kmtp = replicate 32 0,
           m_pDecKey = tpP, m_sDecKey = tpP, m_sgSK = [], m_sgPK = [],
           m_curKeyCT = 0, m_mbrList = [],
           m_reKeyInt = 3600, m_keyRand = 10, m_keyLifetime = 3610,
           m_KMepoch = 0, m_keyMaker = False, m_subr = True, m_init = True,
           m_pubdist = True, m_mrPending = False, m_mrRefresh = None,
           published = [], subscribed = [], timers = [], next_timer = 0,
           newKeyCalls = [], connCalls = []\<rparr>"

text \<open>\<open>tpP\<close> as the key maker, with itself and \<open>tpC\<close> enrolled.\<close>

definition stK :: DistSGKey where
  "stK = st0\<lparr>m_keyMaker := True, m_mbrList := [(tpP, tpP), (tpC, tpC)]\<rparr>"

text \<open>The certificate of \<open>tpP\<close>, and \<open>tpP\<close> as a subscriber and as a publisher past
  initialisation that follow the key maker \<open>tpQ\<close> in epoch 1.\<close>

definition certP :: rCert where
  "certP = \<lparr>computeThumbPrint = tpP, cert_content = tpP\<rparr>"

definition stSub :: DistSGKey where
  "stSub = st0\<lparr>m_init := False, m_kmtp := tpQ, m_KMepoch := 1, m_curKeyCT := 5\<rparr>"

definition stPub :: DistSGKey where
  "stPub = st0\<lparr>m_subr := False, m_init := False, m_kmtp := tpQ, m_KMepoch := 1,
               m_curKeyCT := 10\<rparr>"

text \<open>Key records: \<open>krOut\<close> of the key maker \<open>tpQ\<close> in epoch 1 with creation time 10,
  for thumbprints whose identifiers lie between \<open>[81,0,0,0]\<close> and \<open>[82,0,0,0]\<close>;
  \<open>krOld\<close> of \<open>tpP\<close> in epoch 0 with creation time 3; \<open>krKey signer ct\<close> of
  \<open>signer\<close> in epoch 1 with creation time \<open>ct\<close> and no sealed keys.\<close>

definition krOut :: rPub where
  "krOut = \<lparr>pub_thumbprint = tpQ, pub_epoch = 1, pub_tpl = [81, 0, 0, 0],
             pub_tph = [82, 0, 0, 0], pub_ts = 9,
             pub_content = [(36, TlvNumber 10), (150, TlvArray [7]), (130, TlvRecords [])]\<rparr>"

definition krOld :: rPub where
  "krOld = \<lparr>pub_thumbprint = tpP, pub_epoch = 0, pub_tpl = [80, 17, 3, 99],
             pub_tph = [80, 17, 3, 99], pub_ts = 2,
             pub_content = [(36, TlvNumber 3), (150, TlvArray [7]), (130, TlvRecords [])]\<rparr>"


subsection \<open>Sequences of key records\<close>





subsection \<open>Invariants of a distributor\<close>

text \<open>The timers armed by \<^verbatim>\<open>m_sync.schedule\<close> for the refresh of a membership
  request.\<close>

definition refreshTimers :: "DistSGKey \<Rightarrow> (nat \<times> timer_cb \<times> msec) list" where
  "refreshTimers s = filter (\<lambda>t. fst (snd t) = MRRefresh) (timers s)"

text \<open>What holds of a distributor between two events: the handles of its armed timers
  are distinct and older than the next one, every armed refresh timer is the one
  \<^verbatim>\<open>m_mrRefresh\<close> refers to, \<^verbatim>\<open>m_connCb\<close> has been called once with \<^verbatim>\<open>true\<close> if
  initialisation is over and never before, and the key lifetime is \<open>K\<close>.\<close>

definition dist_inv :: "msec \<Rightarrow> DistSGKey \<Rightarrow> bool" where
  "dist_inv K s =
     (list_all (\<lambda>t. fst t < next_timer s) (timers s)
      \<and> distinct (map fst (timers s))
      \<and> list_all (\<lambda>t. fst (snd t) = MRRefresh \<longrightarrow> m_mrRefresh s = Some (fst t)) (timers s)
      \<and> connCalls s = (if m_init s then [] else [True])
      \<and> m_keyLifetime s = K)"

section \<open>Properties\<close>

subsection \<open>The number of key records per publication\<close>

text \<open>
  Claim C7. The constant \<^verbatim>\<open>maxKR\<close> is the formula of the specification,
  \<open>floor ((maxPubSize - pk_size - ct_size - overhead) / record_size)\<close>, with
  \<open>pk_size = 32\<close>, \<open>ct_size = 8\<close>, \<open>overhead = 96\<close> and
  \<open>record_size = sizeof(thumbPrint) + (crypto_box_SEALBYTES + 32)\<close>. The machine
  arithmetic of the source agrees with the formula on the integers for every
  \<^verbatim>\<open>maxPubSize\<close> that leaves room for the fixed part of a publication (136 bytes) and
  fits a signed 32-bit integer.
\<close>

theorem maxKR_formula:
  assumes lo: "136 \<le> unat maxPubSize"
    and hi: "unat maxPubSize < 2 ^ 31"
    and tp: "unat sizeof_thumbPrint < 2 ^ 32"
  shows "maxKR maxPubSize sizeof_thumbPrint =
         maxKR_spec (uint maxPubSize) 32 8 96
           (uint sizeof_thumbPrint + (int crypto_box_SEALBYTES + 32))"
proof -
  define num :: "32 word" where "num = maxPubSize - kxpkKeySz - 8 - 96"
  define den :: "64 word" where "den = sizeof_thumbPrint + encSGKeySz"
  have num_eq: "num = maxPubSize - 136"
    by (simp add: num_def kxpkKeySz_def crypto_kx_PUBLICKEYBYTES_def)
  have "(136 :: 32 word) \<le> maxPubSize"
    using lo by (simp add: word_le_nat_alt)
  then have unat_num: "unat num = unat maxPubSize - 136"
    unfolding num_eq by (simp add: unat_sub)
  have den_eq: "den = sizeof_thumbPrint + 80"
    by (simp add: den_def encSGKeySz_def kxskKeySz_def crypto_box_SEALBYTES_def
        crypto_kx_SECRETKEYBYTES_def)
  have unat_den: "unat den = unat sizeof_thumbPrint + 80"
    unfolding den_eq using tp by (simp add: unat_word_ariths)
  have "unat num < 2 ^ 64"
    using unat_num hi by simp
  then have up: "unat (ucast num :: 64 word) = unat num"
    by (simp add: unsigned_ucast_eq take_bit_nat_eq_self_iff)
  define q :: "64 word" where "q = ucast num div den"
  have unat_q: "unat q = (unat maxPubSize - 136) div (unat sizeof_thumbPrint + 80)"
    by (simp add: q_def unat_div up unat_num unat_den)
  have q_small: "unat q < 2 ^ 31"
  proof -
    have "unat q \<le> unat maxPubSize - 136"
      unfolding unat_q by (rule div_le_dividend)
    with hi show ?thesis by linarith
  qed
  then have down: "unat (ucast q :: 32 word) = unat q"
    by (simp add: unsigned_ucast_eq take_bit_nat_eq_self_iff)
  have "uint (ucast q :: 32 word) = int (unat q)"
    using down by (metis of_nat_unat)
  moreover have "int (unat q) < 2 ^ 31"
    using q_small by (metis of_nat_less_iff of_nat_numeral of_nat_power)
  moreover have "- (2 ^ 31) \<le> int (unat q)"
    by (rule order_trans [of _ 0]) simp_all
  ultimately have s: "sint (ucast q :: 32 word) = int (unat q)"
    by (simp add: sint_uint signed_take_bit_int_eq_self del: of_nat_unat)
  have "int (unat q) = (uint maxPubSize - 136) div (uint sizeof_thumbPrint + 80)"
    unfolding unat_q using lo by (simp add: zdiv_int)
  with s show ?thesis
    by (simp add: maxKR_def maxKR_spec_def q_def num_def den_def crypto_box_SEALBYTES_def)
qed

text \<open>With the default \<^verbatim>\<open>maxPubSize\<close> of 1024 bytes and 32-byte thumbprints a
  publication holds 7 key records.\<close>

theorem maxKR_formula_witness:
  "136 \<le> unat (1024 :: 32 word) \<and> unat (1024 :: 32 word) < 2 ^ 31
   \<and> unat (32 :: 64 word) < 2 ^ 32
   \<and> maxKR 1024 32 = 7
   \<and> maxKR_spec (uint (1024 :: 32 word)) 32 8 96
        (uint (32 :: 64 word) + (int crypto_box_SEALBYTES + 32)) = 7"
  using maxKR_formula [of 1024 32]
  by (simp add: maxKR_spec_def crypto_box_SEALBYTES_def)

subsection \<open>A member whose key cannot be converted\<close>

lemma mbr_erase_insert: "mbr_erase k (mbr_insert k v m) = mbr_erase k m"
  by (induction m) (auto simp: mbr_erase_def)

text \<open>
  Claim C10. When \<^verbatim>\<open>addGroupMem\<close> reaches the conversion of the requester's public key
  (the distributor is the key maker, the table is below its cap, the requester has the
  subscriber capability and is not a relay) and the conversion returns non-zero, the
  member table afterwards has no entry for the requester's thumbprint: the call only
  erases that key from the table, whether or not it was enrolled before, and changes
  nothing else.
\<close>

theorem addGroupMem_conversion_fails:
  assumes "m_keyMaker s" and "length (m_mbrList s) \<noteq> 80 * mKR" and "sgMem env tp"
    and "\<not> (m_pubdist s \<and> certs_relay env tp)"
    and "fst (crypto_sign_ed25519_pk_to_curve25519 env (certs_content env tp)
               (mbr_at tp (m_mbrList s))) \<noteq> 0"
  shows "addGroupMem env mKR now tp s = s\<lparr>m_mbrList := mbr_erase tp (m_mbrList s)\<rparr>
       \<and> map_of (m_mbrList (addGroupMem env mKR now tp s)) tp = None
       \<and> tp \<notin> fst ` set (m_mbrList (addGroupMem env mKR now tp s))"
proof -
  have "addGroupMem env mKR now tp s = s\<lparr>m_mbrList := mbr_erase tp (m_mbrList s)\<rparr>"
    using assms by (auto simp: addGroupMem_def Let_def split_beta mbr_erase_insert)
  moreover have "tp \<notin> fst ` set (mbr_erase tp (m_mbrList s))"
    by (auto simp: mbr_erase_def)
  ultimately show ?thesis
    by (simp add: map_of_eq_None_iff)
qed

text \<open>The key maker \<open>stK\<close> has enrolled \<open>tpC\<close>; a new request of \<open>tpC\<close> whose key
  conversion fails removes it.\<close>

theorem addGroupMem_conversion_fails_witness:
  "m_keyMaker stK \<and> length (m_mbrList stK) \<noteq> 80 * 7 \<and> sgMem env0 tpC
   \<and> \<not> (m_pubdist stK \<and> certs_relay env0 tpC)
   \<and> fst (crypto_sign_ed25519_pk_to_curve25519 env0 (certs_content env0 tpC)
            (mbr_at tpC (m_mbrList stK))) \<noteq> 0
   \<and> map_of (m_mbrList stK) tpC = Some tpC
   \<and> m_mbrList (addGroupMem env0 7 5 tpC stK) = [(tpP, tpP)]"
proof -
  have h1: "m_keyMaker stK" by (simp add: stK_def)
  have h2: "length (m_mbrList stK) \<noteq> 80 * 7" by (simp add: stK_def)
  have h3: "sgMem env0 tpC" by (simp add: env0_def tpC_def)
  have h4: "\<not> (m_pubdist stK \<and> certs_relay env0 tpC)" by (simp add: env0_def)
  have h5: "fst (crypto_sign_ed25519_pk_to_curve25519 env0 (certs_content env0 tpC)
                  (mbr_at tpC (m_mbrList stK))) \<noteq> 0"
    by (simp add: env0_def)
  have h6: "map_of (m_mbrList stK) tpC = Some tpC"
    by (simp add: stK_def tpC_def tpP_def)
  have h7: "mbr_erase tpC (m_mbrList stK) = [(tpP, tpP)]"
    by (simp add: stK_def mbr_erase_def tpC_def tpP_def)
  from addGroupMem_conversion_fails [OF h1 h2 h3 h4 h5, of 5] h1 h2 h3 h4 h5 h6 h7
  show ?thesis by simp
qed

subsection \<open>Rekeying: the publications of \<^verbatim>\<open>makeSGKey\<close>\<close>

lemma chunks_Nil: "chunks k [] = []"
  by (subst chunks.simps) simp

lemma chunks_step: "0 < k \<Longrightarrow> xs \<noteq> [] \<Longrightarrow> chunks k xs = take k xs # chunks k (drop k xs)"
  by (subst chunks.simps) simp

lemma chunks_concat: "0 < k \<Longrightarrow> concat (chunks k xs) = xs"
proof (induction k xs rule: chunks.induct)
  case (1 k xs)
  show ?case
  proof (cases "xs = []")
    case True
    then show ?thesis by (simp add: chunks_Nil)
  next
    case False
    with 1 show ?thesis by (simp add: chunks_step)
  qed
qed

lemma ceil_div_step:
  assumes "0 < (k::nat)" and "0 < n"
  shows "(n + k - 1) div k = Suc ((n - k + k - 1) div k)"
proof (cases "k \<le> n")
  case True
  then have "n + k - 1 = (n - k + k - 1) + k" using assms by linarith
  then have "(n + k - 1) div k = ((n - k + k - 1) + k) div k" by (rule arg_cong)
  also have "\<dots> = (n - k + k - 1) div k + 1"
    using assms(1) div_add_self2 [of k "n - k + k - 1"] by blast
  finally show ?thesis by (simp only: Suc_eq_plus1)
next
  case False
  then have e: "n + k - 1 = (n - 1) + k" and l: "n - 1 < k" and l': "n - k + k - 1 < k"
    using assms by linarith+
  from e have "(n + k - 1) div k = ((n - 1) + k) div k" by (rule arg_cong)
  also have "\<dots> = (n - 1) div k + 1"
    using assms(1) div_add_self2 [of k "n - 1"] by blast
  also have "\<dots> = 1" using l by (simp only: div_less add_0)
  finally have "(n + k - 1) div k = 1" .
  moreover have "(n - k + k - 1) div k = 0" using l' by (rule div_less)
  ultimately show ?thesis by (simp only: One_nat_def)
qed

lemma chunks_length: "0 < k \<Longrightarrow> length (chunks k xs) = (length xs + k - 1) div k"
proof (induction k xs rule: chunks.induct)
  case (1 k xs)
  show ?case
  proof (cases "xs = []")
    case True
    with 1 show ?thesis by (simp add: chunks_Nil)
  next
    case False
    then have "length (chunks k xs) = Suc ((length xs - k + k - 1) div k)"
      using 1 by (simp add: chunks_step)
    moreover from False have "0 < length xs" by simp
    ultimately show ?thesis using ceil_div_step [OF 1(2), of "length xs"] by (simp only:)
  qed
qed

lemma chunks_bounds: "0 < k \<Longrightarrow> c \<in> set (chunks k xs) \<Longrightarrow> c \<noteq> [] \<and> length c \<le> k"
proof (induction k xs rule: chunks.induct)
  case (1 k xs)
  show ?case
  proof (cases "xs = []")
    case True
    with 1(3) show ?thesis by (simp add: chunks_Nil)
  next
    case False
    with 1(2,3) have "c = take k xs \<or> c \<in> set (chunks k (drop k xs))"
      by (simp add: chunks_step)
    then show ?thesis using 1(1,2) False by auto
  qed
qed

lemma keyRangePub_published [simp]:
  "keyRangePub (st\<lparr>published := ps\<rparr>) ts c = keyRangePub st ts c"
  by (simp add: keyRangePub_def)

lemma publishKeyRange_eq:
  "c \<noteq> [] \<Longrightarrow>
   publishKeyRange (fst (hd c)) (fst (last c)) ts
     [(36, TlvNumber (m_curKeyCT st)), (150, TlvArray (m_sgPK st)), (130, TlvRecords c)] False st
   = st\<lparr>published := published st @ [keyRangePub st ts c]\<rparr>"
  by (simp add: publishKeyRange_def publish_def keyRangePub_def)

lemma ceil_bounds:
  assumes "0 < (k::nat)" and "0 < n" and "p = (if n \<le> k then 1 else (n + k - 1) div k)"
  shows "(p - 1) * k < n \<and> n \<le> p * k"
proof (cases "n \<le> k")
  case True
  with assms show ?thesis by simp
next
  case False
  with assms have p: "p = (n + k - 1) div k" by simp
  have "p * k \<le> n + k - 1" unfolding p by simp
  moreover have "n + k - 1 < p * k + k"
    unfolding p using assms(1) by (metis dividend_less_div_times mult.commute add.commute)
  moreover have "0 < p" unfolding p using assms False by (simp add: div_greater_zero_iff)
  ultimately show ?thesis
    using assms(1,2) by (cases p) (auto simp: algebra_simps)
qed

lemma makeSGKey_loop_done: "makeSGKey_loop k pp ts p p s it st = Inr st"
  by (subst makeSGKey_loop.simps) simp

lemma makeSGKey_loop_chunks:
  assumes k: "0 < k" and n: "length (m_mbrList st) \<noteq> 0"
    and b: "(p - 1) * k < length pp" "length pp \<le> p * k"
    and i: "i * k < length pp"
  shows "makeSGKey_loop k pp ts p i (length pp - i * k) (i * k) st =
         Inr (st\<lparr>published := published st @
                map (keyRangePub st ts) (chunks k (drop (i * k) pp))\<rparr>)"
  using assms
proof (induction "p - i" arbitrary: i st)
  case 0
  then have "p * k \<le> i * k" by simp
  with 0 show ?case by linarith
next
  case (Suc d)
  let ?n = "length pp"
  let ?it = "i * k"
  from Suc.hyps(2) have ip: "i < p" by simp
  note nz = Suc.prems(2) and i = Suc.prems(5)
  have ne: "drop ?it pp \<noteq> []" using i by simp
  have hd_d: "pp ! ?it = hd (drop ?it pp)"
    using i by (simp add: hd_drop_conv_nth)
  show ?case
  proof (cases "i < p - 1")
    case True
    then have "Suc i * k \<le> (p - 1) * k" by (intro mult_le_mono1) simp
    with b have next_lt: "Suc i * k < ?n" by linarith
    then have ks: "k \<le> ?n - ?it" "?it + k \<le> ?n" "\<not> ?n \<le> ?it + k - 1" "\<not> ?n < ?it + k"
      "\<not> ?n \<le> ?it" "?it + k \<noteq> 0"
      using k by simp_all
    have sk: "?n - ?it - k = ?n - Suc i * k" "?it + k = Suc i * k" by simp_all
    define c where "c = take k (drop ?it pp)"
    have len_c: "length c = k" using ks by (simp add: c_def)
    then have c_ne: "c \<noteq> []" using k by auto
    have ch: "chunks k (drop ?it pp) = c # chunks k (drop (Suc i * k) pp)"
      using chunks_step [OF k ne] by (simp add: c_def add.commute)
    have hd_c: "pp ! ?it = hd c"
      using k by (simp add: c_def hd_d)
    have last_c: "pp ! (?it + k - 1) = last c"
      using len_c c_ne k ks by (simp add: last_conv_nth c_def)
    define st' where "st' = st\<lparr>published := published st @ [keyRangePub st ts c]\<rparr>"
    have pk: "publishKeyRange (fst (pp ! ?it)) (fst (pp ! (?it + k - 1))) ts
               [(36, TlvNumber (m_curKeyCT st)), (150, TlvArray (m_sgPK st)),
                (130, TlvRecords (take k (drop ?it pp)))] False st = st'"
      unfolding hd_c last_c c_def [symmetric] st'_def by (rule publishKeyRange_eq [OF c_ne])
    have nz': "length (m_mbrList st') \<noteq> 0" using nz by (simp add: st'_def)
    have d: "d = p - Suc i" using Suc.hyps(2) by simp
    have IH: "makeSGKey_loop k pp ts p (Suc i) (?n - Suc i * k) (Suc i * k) st' =
              Inr (st'\<lparr>published := published st' @
                     map (keyRangePub st' ts) (chunks k (drop (Suc i * k) pp))\<rparr>)"
      by (rule Suc.hyps(1) [OF d k nz' b next_lt])
    have step: "makeSGKey_loop k pp ts p i (?n - ?it) ?it st =
                makeSGKey_loop k pp ts p (Suc i) (?n - Suc i * k) (Suc i * k) st'"
      apply (subst makeSGKey_loop.simps)
      apply (simp only: ip True nz ks if_True if_False Let_def pk
                append.simps simp_thms)
      apply (simp only: sk)
      done
    show ?thesis
      unfolding step IH by (simp add: st'_def ch)
  next
    case False
    with ip have ip1: "i = p - 1" by simp
    define s where "s = ?n - ?it"
    from ip1 ip have "p = Suc i" by simp
    then have "p * k = ?it + k" by simp
    with b(2) have "?n \<le> ?it + k" by simp
    with i have r: "1 \<le> s" "s \<le> k" "?it + s = ?n"
      unfolding s_def by linarith+
    then have ks: "s \<le> ?n - ?it" "\<not> ?n < ?it + s" "\<not> ?n \<le> ?it + s - 1" "?it + s \<noteq> 0"
      "\<not> ?n \<le> ?it"
      using i by linarith+
    define c where "c = drop ?it pp"
    have c_ne: "c \<noteq> []" using ne by (simp add: c_def)
    have len_c: "length c = s" by (simp add: c_def s_def)
    have tk: "take s (drop ?it pp) = c" using len_c by (simp add: c_def)
    have ch: "chunks k (drop ?it pp) = [c]"
      using chunks_step [OF k ne] r len_c by (simp add: c_def [symmetric] chunks_Nil)
    have hd_c: "pp ! ?it = hd c" by (simp add: c_def hd_d)
    have last_c: "pp ! (?it + s - 1) = last c"
      using c_ne r by (simp add: c_def last_drop last_conv_nth)
    define st' where "st' = st\<lparr>published := published st @ [keyRangePub st ts c]\<rparr>"
    have pk: "publishKeyRange (fst (pp ! ?it)) (fst (pp ! (?it + s - 1))) ts
               [(36, TlvNumber (m_curKeyCT st)), (150, TlvArray (m_sgPK st)),
                (130, TlvRecords (take s (drop ?it pp)))] False st = st'"
      unfolding hd_c last_c tk st'_def by (rule publishKeyRange_eq [OF c_ne])
    have step: "makeSGKey_loop k pp ts p i s ?it st =
                makeSGKey_loop k pp ts p (Suc i) (s - s) (?it + s) st'"
      apply (subst makeSGKey_loop.simps)
      apply (simp only: ip False nz ks if_True if_False Let_def pk
                append.simps simp_thms order_refl s_def [symmetric])
      done
    have "Suc i = p" using ip ip1 by simp
    then show ?thesis
      unfolding s_def [symmetric] step by (simp add: makeSGKey_loop_done st'_def ch)
  qed
qed

lemma initDone_published [simp]: "published (initDone st) = published st"
  by (simp add: initDone_def connCb_def)

text \<open>
  Claim C6. A rekey with \<open>n \<ge> 1\<close> members left after the sweep of expired
  certificates publishes the pairs (thumbprint, sealed secret key) of exactly these
  members, in the order of the member table, which is the byte-lexicographic order of
  the thumbprints (the table is a \<^verbatim>\<open>std::map\<close>, iterated in key order). The pairs are
  cut into \<open>ceil (n / maxKR)\<close> publications, none empty and none with more than
  \<^verbatim>\<open>maxKR\<close> records; every publication carries the same timestamp \<open>pubTS\<close>, the new
  creation time and public key, and in its name the first 4 bytes of the thumbprints of
  its first and of its last record. The loop never reads past the end of the pairs.
\<close>

theorem makeSGKey_publications:
  assumes k: "0 < mKR"
    and srt: "sorted_wrt tp_less (map fst (m_mbrList st))"
    and mem: "members = filter (\<lambda>kv. \<not> expired env now kv) (m_mbrList st)"
    and n: "1 \<le> length members"
    and pp: "pubPairs = map (\<lambda>kv. (fst kv, crypto_box_seal env (snd kp) (snd kv))) members"
  shows "\<exists>st' cs.
           makeSGKey env mKR kp ct now pubTS st = Inr st'
         \<and> published st' = published st @
              map (\<lambda>c. (KeyRecPub \<lparr>pub_thumbprint = m_tp st, pub_epoch = ucast (m_KMepoch st),
                                     pub_tpl = take 4 (fst (hd c)), pub_tph = take 4 (fst (last c)),
                                     pub_ts = pubTS,
                                     pub_content = [(36, TlvNumber (of_nat ct)),
                                                    (150, TlvArray (fst kp)),
                                                    (130, TlvRecords c)]\<rparr>, False)) cs
         \<and> concat cs = pubPairs
         \<and> map fst pubPairs = map fst members
         \<and> sorted_wrt tp_less (map fst pubPairs)
         \<and> length cs = (length members + mKR - 1) div mKR
         \<and> list_all (\<lambda>c. c \<noteq> [] \<and> length c \<le> mKR) cs"
proof -
  define st1 where "st1 = newKeyCb (fst kp) (snd kp) (of_nat ct)
    (st\<lparr>m_sgPK := fst kp, m_sgSK := snd kp, m_curKeyCT := of_nat ct, m_mbrList := members\<rparr>)"
  define p where "p = (if length members \<le> mKR then 1 else (length members + mKR - 1) div mKR)"
  have len: "length pubPairs = length members" by (simp add: pp)
  have nz: "length (m_mbrList st1) \<noteq> 0" using n by (auto simp: st1_def newKeyCb_def)
  have b: "(p - 1) * mKR < length pubPairs \<and> length pubPairs \<le> p * mKR"
    unfolding len by (rule ceil_bounds [OF k _ p_def]) (use n in auto)
  have i0: "0 * mKR < length pubPairs" using n len by auto
  have loop: "makeSGKey_loop mKR pubPairs pubTS p 0 (length pubPairs) 0 st1 =
      Inr (st1\<lparr>published := published st1 @ map (keyRangePub st1 pubTS) (chunks mKR pubPairs)\<rparr>)"
    using makeSGKey_loop_chunks [OF k nz conjunct1 [OF b] conjunct2 [OF b] i0, of pubTS]
    by simp
  define st2 where "st2 = st1\<lparr>published := published st1 @ map (keyRangePub st1 pubTS) (chunks mKR pubPairs)\<rparr>"
  have mk: "makeSGKey env mKR kp ct now pubTS st =
            Inr (if m_init st2 \<and> length (m_mbrList st2) \<noteq> 0 then initDone st2 else st2)"
  proof (cases "length members \<le> mKR")
    case True
    with k loop show ?thesis
      by (simp add: makeSGKey_def Let_def mem [symmetric] pp [symmetric] st1_def
            p_def len st2_def newKeyCb_def)
  next
    case False
    with k loop show ?thesis
      by (simp add: makeSGKey_def Let_def mem [symmetric] pp [symmetric] st1_def
            p_def len st2_def newKeyCb_def)
  qed
  let ?st' = "if m_init st2 \<and> length (m_mbrList st2) \<noteq> 0 then initDone st2 else st2"
  have pub: "published ?st' = published st @ map (keyRangePub st1 pubTS) (chunks mKR pubPairs)"
    by (simp add: st2_def st1_def newKeyCb_def)
  have kr: "keyRangePub st1 pubTS =
     (\<lambda>c. (KeyRecPub \<lparr>pub_thumbprint = m_tp st, pub_epoch = ucast (m_KMepoch st),
                            pub_tpl = take 4 (fst (hd c)), pub_tph = take 4 (fst (last c)),
                            pub_ts = pubTS,
                            pub_content = [(36, TlvNumber (of_nat ct)),
                                           (150, TlvArray (fst kp)),
                                           (130, TlvRecords c)]\<rparr>, False))"
    by (rule ext) (simp add: keyRangePub_def st1_def newKeyCb_def)
  have keys: "map fst pubPairs = map fst members" by (simp add: pp comp_def)
  have "sorted_wrt (\<lambda>x y. tp_less (fst x) (fst y)) (m_mbrList st)"
    using srt by (simp add: sorted_wrt_map)
  then have "sorted_wrt (\<lambda>x y. tp_less (fst x) (fst y)) members"
    unfolding mem by (rule sorted_wrt_filter)
  then have srt': "sorted_wrt tp_less (map fst pubPairs)"
    unfolding keys by (simp add: sorted_wrt_map)
  have bounds: "list_all (\<lambda>c. c \<noteq> [] \<and> length c \<le> mKR) (chunks mKR pubPairs)"
    unfolding list_all_iff using chunks_bounds [OF k] by blast
  show ?thesis
    apply (rule exI [of _ ?st'])
    apply (rule exI [of _ "chunks mKR pubPairs"])
    using mk pub keys srt' bounds chunks_concat [OF k, of pubPairs] chunks_length [OF k, of pubPairs]
    apply (simp only: kr len)
    done
qed


text \<open>The key maker \<open>stK\<close> has two members, none expired at time 5; with one record
  per publication the rekey publishes twice.\<close>

theorem makeSGKey_publications_witness:
  "0 < (1::nat)
   \<and> sorted_wrt tp_less (map fst (m_mbrList stK))
   \<and> filter (\<lambda>kv. \<not> expired env0 5 kv) (m_mbrList stK) = [(tpP, tpP), (tpC, tpC)]
   \<and> (\<exists>st'. makeSGKey env0 1 ([7], [8]) 100 5 7 stK = Inr st' \<and> length (published st') = 2)"
proof -
  have h1: "0 < (1::nat)" by simp
  have h2: "sorted_wrt tp_less (map fst (m_mbrList stK))"
    by (simp add: stK_def tpP_def tpC_def)
  have h3: "[(tpP, tpP), (tpC, tpC)] = filter (\<lambda>kv. \<not> expired env0 5 kv) (m_mbrList stK)"
    by (simp add: stK_def expired_def env0_def)
  have h4: "1 \<le> length [(tpP, tpP), (tpC, tpC)]" by simp
  have p0: "published stK = []" by (simp add: stK_def st0_def)
  have "\<exists>st'. makeSGKey env0 1 ([7], [8]) 100 5 7 stK = Inr st' \<and> length (published st') = 2"
    using makeSGKey_publications [OF h1 h2 h3 h4 refl, of "([7], [8])" 100 7] p0
    by auto
  with h1 h2 h3 show ?thesis by simp
qed

subsection \<open>Where the code departs from its documentation\<close>

text \<open>
  Claim C1. A subscriber whose thumbprint identifier lies outside the range of an
  arriving key record should schedule a delayed membership request when the record's
  creation time is newer than its own and no request is pending. In
  \<^verbatim>\<open>receiveSGKeyRecords\<close> the comparison reads \<^verbatim>\<open>newCT\<close> before the content is parsed,
  while it is still zero, so nothing is ever scheduled: the subscriber \<open>stSub\<close>
  (creation time 5, no request pending, identifier \<open>[80,17,3,99]\<close>) receives \<open>krOut\<close>
  (creation time 10, range \<open>[81,0,0,0]\<close> to \<open>[82,0,0,0]\<close>) and is left unchanged, with
  no timer armed.
\<close>

theorem receiveSGKeyRecords_outside_range_schedules_nothing:
  "m_subr stSub \<and> \<not> m_mrPending stSub \<and> m_curKeyCT stSub = 5
   \<and> less_span (take 4 (m_tp stSub)) (pub_tpl krOut)
   \<and> nextBlk 36 (pub_content krOut)
       = Some (TlvNumber 10, [(150, TlvArray [7]), (130, TlvRecords [])])
   \<and> receiveSGKeyRecords env0 6 krOut stSub = stSub
   \<and> timers (receiveSGKeyRecords env0 6 krOut stSub) = []"
  by (simp add: receiveSGKeyRecords_def stSub_def st0_def krOut_def env0_def tpP_def tpQ_def
      less_span_def Let_def)

text \<open>
  Claim C3. A key record of an epoch before the peer's own should be dropped. The
  epoch gate of \<^verbatim>\<open>receiveSGKeyRecords\<close> only drops a different epoch when it is
  greater than 1, so a record of epoch 0 reaches a peer in epoch 1: the publisher
  \<open>stPub\<close> (epoch 1, key maker \<open>tpQ\<close>, creation time 10) receives \<open>krOld\<close> (epoch 0,
  signed by \<open>tpP\<close>, creation time 3), goes back to epoch 0, takes \<open>tpP\<close> as key maker and
  adopts the older key.
\<close>

theorem receiveSGKeyRecords_earlier_epoch_accepted:
  "m_KMepoch stPub = 1 \<and> pub_epoch krOld = 0
   \<and> receiveSGKeyRecords env0 6 krOld stPub
       = stPub\<lparr>m_KMepoch := 0, m_kmtp := tpP, m_curKeyCT := 3,
                newKeyCalls := [([7], [], 3)]\<rparr>"
  by (simp add: receiveSGKeyRecords_def receiveSGKeyRecords_content_def stPub_def st0_def
      krOld_def env0_def tpP_def tpQ_def less_span_def Let_def newKeyCb_def)

text \<open>
  Claim C5. A change of the subscriber or key-maker capability of the local identity
  should be raised as an error. \<^verbatim>\<open>updateSigningKey\<close> builds the \<^verbatim>\<open>runtime_error\<close> and
  does not throw it: a subscriber whose new signing chain lacks the subscriber
  capability becomes a publisher and the call returns normally, and so does the call
  of a key maker whose new chain lacks the key-maker capability.
\<close>

theorem updateSigningKey_capability_change_returns:
  "m_subr (st0\<lparr>m_init := False\<rparr>) \<and> \<not> sgMem (env0\<lparr>sgMem := \<lambda>tp. False\<rparr>) tpP
   \<and> updateSigningKey (env0\<lparr>sgMem := \<lambda>tp. False\<rparr>) 5 (tpP @ tpP) certP
         (st0\<lparr>m_init := False\<rparr>)
       = Inr (st0\<lparr>m_init := False, m_subr := False\<rparr>)
   \<and> m_keyMaker (stK\<lparr>m_init := False\<rparr>) \<and> kmpri (env0\<lparr>kmpri := \<lambda>tp. 0\<rparr>) tpP = 0
   \<and> updateSigningKey (env0\<lparr>kmpri := \<lambda>tp. 0\<rparr>) 5 (tpP @ tpP) certP
         (stK\<lparr>m_init := False\<rparr>)
       = Inr (stK\<lparr>m_init := False\<rparr>)"
  by (simp add: updateSigningKey_def std_runtime_error_def stK_def st0_def certP_def env0_def
      tpP_def tpC_def Let_def resize_def crypto_scalarmult_curve25519_BYTES_def)

subsection \<open>Two key makers\<close>





subsection \<open>Creation times of adopted keys\<close>

lemma publishMembershipReq_frame [simp]:
  "m_keyMaker (publishMembershipReq now s) = m_keyMaker s"
  "m_kmtp (publishMembershipReq now s) = m_kmtp s"
  "m_KMepoch (publishMembershipReq now s) = m_KMepoch s"
  "m_curKeyCT (publishMembershipReq now s) = m_curKeyCT s"
  "newKeyCalls (publishMembershipReq now s) = newKeyCalls s"
  "connCalls (publishMembershipReq now s) = connCalls s"
  "m_init (publishMembershipReq now s) = m_init s"
  "m_subr (publishMembershipReq now s) = m_subr s"
  "m_tp (publishMembershipReq now s) = m_tp s"
  "m_mbrList (publishMembershipReq now s) = m_mbrList s"
  "m_keyLifetime (publishMembershipReq now s) = m_keyLifetime s"
  "m_reKeyInt (publishMembershipReq now s) = m_reKeyInt s"
  "m_keyRand (publishMembershipReq now s) = m_keyRand s"
  by (simp_all add: publishMembershipReq_def Let_def cancel_def publish_def schedule_def
      split: option.splits)









subsection \<open>The invariants hold after every event\<close>

lemma dist_inv_frame [simp]:
  "dist_inv K (s\<lparr>m_tp := a1\<rparr>) = dist_inv K s"
  "dist_inv K (s\<lparr>m_kmtp := a2\<rparr>) = dist_inv K s"
  "dist_inv K (s\<lparr>m_pDecKey := a3\<rparr>) = dist_inv K s"
  "dist_inv K (s\<lparr>m_sDecKey := a4\<rparr>) = dist_inv K s"
  "dist_inv K (s\<lparr>m_sgSK := a5\<rparr>) = dist_inv K s"
  "dist_inv K (s\<lparr>m_sgPK := a6\<rparr>) = dist_inv K s"
  "dist_inv K (s\<lparr>m_curKeyCT := a7\<rparr>) = dist_inv K s"
  "dist_inv K (s\<lparr>m_mbrList := a8\<rparr>) = dist_inv K s"
  "dist_inv K (s\<lparr>m_KMepoch := a9\<rparr>) = dist_inv K s"
  "dist_inv K (s\<lparr>m_keyMaker := b1\<rparr>) = dist_inv K s"
  "dist_inv K (s\<lparr>m_subr := b2\<rparr>) = dist_inv K s"
  "dist_inv K (s\<lparr>m_pubdist := b3\<rparr>) = dist_inv K s"
  "dist_inv K (s\<lparr>m_mrPending := b4\<rparr>) = dist_inv K s"
  "dist_inv K (s\<lparr>published := b5\<rparr>) = dist_inv K s"
  "dist_inv K (s\<lparr>subscribed := b6\<rparr>) = dist_inv K s"
  "dist_inv K (s\<lparr>newKeyCalls := b7\<rparr>) = dist_inv K s"
  by (simp_all add: dist_inv_def)

lemma dist_inv_publish [simp]: "dist_inv K (publish p c s) = dist_inv K s"
  by (simp add: publish_def)

lemma dist_inv_subscribe [simp]: "dist_inv K (subscribe t s) = dist_inv K s"
  by (simp add: subscribe_def)

lemma dist_inv_unsubscribe [simp]: "dist_inv K (unsubscribe t s) = dist_inv K s"
  by (simp add: unsubscribe_def)

lemma dist_inv_newKeyCb [simp]: "dist_inv K (newKeyCb pk sk ct s) = dist_inv K s"
  by (simp add: newKeyCb_def)

lemma dist_inv_publishKeyRange [simp]: "dist_inv K (publishKeyRange l h ts c conf s) = dist_inv K s"
  by (simp add: publishKeyRange_def)

lemma dist_inv_initDone: "dist_inv K s \<Longrightarrow> dist_inv K (initDone s)"
  by (simp add: dist_inv_def initDone_def connCb_def)

lemma dist_inv_oneTime: "cb \<noteq> MRRefresh \<Longrightarrow> dist_inv K s \<Longrightarrow> dist_inv K (oneTime d cb s)"
  by (auto simp: dist_inv_def oneTime_def schedule_def list_all_iff)

lemma dist_inv_drop_timer:
  "dist_inv K s \<Longrightarrow> dist_inv K (s\<lparr>timers := filter (\<lambda>t. fst t \<noteq> i) (timers s)\<rparr>)"
  by (auto simp: dist_inv_def list_all_iff distinct_map_filter)

lemma dist_inv_cancel: "dist_inv K s \<Longrightarrow> dist_inv K (cancel h s)"
  by (cases h) (simp_all add: cancel_def dist_inv_drop_timer)

lemma refreshTimers_cancel:
  "dist_inv K s \<Longrightarrow> refreshTimers (cancel (m_mrRefresh s) s) = []"
  by (cases "m_mrRefresh s")
     (auto simp: dist_inv_def refreshTimers_def cancel_def list_all_iff filter_empty_conv)

lemma dist_inv_receivedGK: "dist_inv K s \<Longrightarrow> dist_inv K (receivedGK s)"
  by (simp add: receivedGK_def dist_inv_cancel)

lemma dist_inv_publishMembershipReq:
  assumes "dist_inv K s"
  shows "dist_inv K (publishMembershipReq now s)"
proof -
  let ?c = "cancel (m_mrRefresh s) s"
  have c: "dist_inv K ?c" using assms by (rule dist_inv_cancel)
  have r: "refreshTimers ?c = []" using assms by (rule refreshTimers_cancel)
  have h: "m_subr ?c = m_subr s" "m_mrRefresh ?c = m_mrRefresh s"
    by (cases "m_mrRefresh s"; simp add: cancel_def)+
  show ?thesis
  proof (cases "m_subr s")
    case False
    then show ?thesis using c h by (simp add: publishMembershipReq_def Let_def)
  next
    case True
    have "\<forall>t\<in>set (timers ?c). fst (snd t) \<noteq> MRRefresh"
      using r by (simp add: refreshTimers_def filter_empty_conv)
    then show ?thesis
      using True c h
      by (auto simp: publishMembershipReq_def Let_def dist_inv_def schedule_def publish_def
          list_all_iff)
  qed
qed


lemma dist_inv_receiveSGKeyRecords_content:
  "dist_inv K s \<Longrightarrow> dist_inv K (receiveSGKeyRecords_content env p s)"
  by (auto simp: receiveSGKeyRecords_content_def Let_def dist_inv_initDone dist_inv_receivedGK
      split: option.splits)

lemma dist_inv_receiveSGKeyRecords:
  "dist_inv K s \<Longrightarrow> dist_inv K (receiveSGKeyRecords env now p s)"
  by (simp add: receiveSGKeyRecords_def Let_def dist_inv_publishMembershipReq dist_inv_oneTime
      dist_inv_receiveSGKeyRecords_content)

lemma dist_inv_addGroupMem:
  "dist_inv K s \<Longrightarrow> dist_inv K (addGroupMem env mKR now tp s)"
  by (simp add: addGroupMem_def Let_def split_beta dist_inv_initDone)

lemma makeSGKey_Inr:
  assumes k: "0 < mKR"
  shows "\<exists>ps. makeSGKey env mKR kp ct now pubTS st =
           Inr (let st2 = st\<lparr>m_sgPK := fst kp, m_sgSK := snd kp, m_curKeyCT := of_nat ct,
                              m_mbrList := filter (\<lambda>kv. \<not> expired env now kv) (m_mbrList st),
                              newKeyCalls := newKeyCalls st @ [(fst kp, snd kp, of_nat ct)],
                              published := published st @ ps\<rparr>
                in if m_init st2 \<and> length (m_mbrList st2) \<noteq> 0 then initDone st2 else st2)"
proof -
  define members where "members = filter (\<lambda>kv. \<not> expired env now kv) (m_mbrList st)"
  define pubPairs where
    "pubPairs = map (\<lambda>kv. (fst kv, crypto_box_seal env (snd kp) (snd kv))) members"
  define st1 where "st1 = st\<lparr>m_sgPK := fst kp, m_sgSK := snd kp, m_curKeyCT := of_nat ct,
                              m_mbrList := members,
                              newKeyCalls := newKeyCalls st @ [(fst kp, snd kp, of_nat ct)]\<rparr>"
  define p where "p = (if length members \<le> mKR then 1 else (length members + mKR - 1) div mKR)"
  have len: "length pubPairs = length members" by (simp add: pubPairs_def)
  have "\<exists>ps. makeSGKey_loop mKR pubPairs pubTS p 0 (length members) 0 st1 =
               Inr (st1\<lparr>published := published st1 @ ps\<rparr>)"
  proof (cases "members = []")
    case True
    then have "p = 1" by (simp add: p_def)
    moreover have "length (m_mbrList st1) = 0" using True by (simp add: st1_def)
    ultimately have "makeSGKey_loop mKR pubPairs pubTS p 0 (length members) 0 st1 =
      Inr (publishKeyRange (m_tp st1) (m_tp st1) pubTS
             ([(36, TlvNumber (m_curKeyCT st1)), (150, TlvArray (m_sgPK st1))]
              @ [(130, TlvRecords pubPairs)]) True st1)"
      by (subst makeSGKey_loop.simps) (simp add: Let_def)
    then show ?thesis
      by (simp only: publishKeyRange_def publish_def) blast
  next
    case False
    then have n: "0 < length members" by simp
    have nz: "length (m_mbrList st1) \<noteq> 0" using False by (simp add: st1_def)
    have b: "(p - 1) * mKR < length pubPairs \<and> length pubPairs \<le> p * mKR"
      unfolding len by (rule ceil_bounds [OF k n p_def])
    have i0: "0 * mKR < length pubPairs" using n len by simp
    show ?thesis
      using makeSGKey_loop_chunks [OF k nz conjunct1 [OF b] conjunct2 [OF b] i0, of pubTS]
      by (auto simp: len)
  qed
  then obtain ps where loop: "makeSGKey_loop mKR pubPairs pubTS p 0 (length members) 0 st1 =
               Inr (st1\<lparr>published := published st1 @ ps\<rparr>)" ..
  have "makeSGKey env mKR kp ct now pubTS st =
        Inr (let st2 = st1\<lparr>published := published st1 @ ps\<rparr>
             in if m_init st2 \<and> length (m_mbrList st2) \<noteq> 0 then initDone st2 else st2)"
  proof (cases "length members \<le> mKR")
    case True
    with k loop show ?thesis
      by (simp add: makeSGKey_def Let_def members_def [symmetric] pubPairs_def [symmetric]
            st1_def p_def newKeyCb_def)
  next
    case False
    with k loop show ?thesis
      by (simp add: makeSGKey_def Let_def members_def [symmetric] pubPairs_def [symmetric]
            st1_def p_def newKeyCb_def)
  qed
  then have "makeSGKey env mKR kp ct now pubTS st =
           Inr (let st2 = st\<lparr>m_sgPK := fst kp, m_sgSK := snd kp, m_curKeyCT := of_nat ct,
                              m_mbrList := filter (\<lambda>kv. \<not> expired env now kv) (m_mbrList st),
                              newKeyCalls := newKeyCalls st @ [(fst kp, snd kp, of_nat ct)],
                              published := published st @ ps\<rparr>
                in if m_init st2 \<and> length (m_mbrList st2) \<noteq> 0 then initDone st2 else st2)"
    by (simp add: st1_def members_def)
  then show ?thesis by (rule exI)
qed

lemma dist_inv_makeSGKey:
  assumes "0 < mKR" and "dist_inv K st"
  shows "\<exists>st'. makeSGKey env mKR kp ct now pubTS st = Inr st' \<and> dist_inv K st'"
proof -
  from makeSGKey_Inr [OF assms(1), of env kp ct now pubTS st] obtain ps where
    "makeSGKey env mKR kp ct now pubTS st =
           Inr (let st2 = st\<lparr>m_sgPK := fst kp, m_sgSK := snd kp, m_curKeyCT := of_nat ct,
                              m_mbrList := filter (\<lambda>kv. \<not> expired env now kv) (m_mbrList st),
                              newKeyCalls := newKeyCalls st @ [(fst kp, snd kp, of_nat ct)],
                              published := published st @ ps\<rparr>
                in if m_init st2 \<and> length (m_mbrList st2) \<noteq> 0 then initDone st2 else st2)" ..
  then show ?thesis
    using assms(2) by (simp add: Let_def dist_inv_initDone)
qed

lemma dist_inv_makeSGKey_in:
  assumes "0 < mKR" and "dist_inv K st"
  shows "\<exists>st'. makeSGKey_in env mKR rk st = Inr st' \<and> dist_inv K st'"
  using dist_inv_makeSGKey [OF assms]
  by (cases rk) (simp add: makeSGKey_in_def)

lemma dist_inv_sgkeyTimeout:
  assumes "0 < mKR" and "dist_inv K st"
  shows "\<exists>st'. sgkeyTimeout env mKR rk st = Inr st' \<and> dist_inv K st'"
proof (cases "m_keyMaker st")
  case False
  with assms show ?thesis by (simp add: sgkeyTimeout_def)
next
  case True
  from dist_inv_makeSGKey_in [OF assms, of env rk] obtain st1 where
    "makeSGKey_in env mKR rk st = Inr st1" "dist_inv K st1" by blast
  with True show ?thesis by (simp add: sgkeyTimeout_def dist_inv_oneTime)
qed

lemma dist_inv_removeGroupMem:
  assumes "0 < mKR" and "dist_inv K st"
  shows "\<exists>st'. removeGroupMem env mKR tp reKey rk st = Inr st' \<and> dist_inv K st'"
proof -
  have "dist_inv K (st\<lparr>m_mbrList := mbr_erase tp (m_mbrList st)\<rparr>)" using assms(2) by simp
  from dist_inv_makeSGKey_in [OF assms(1) this, of env rk] assms(2)
  show ?thesis by (simp add: removeGroupMem_def Let_def)
qed

lemma dist_inv_eDone:
  assumes "0 < mKR" and "dist_inv K st"
  shows "\<exists>st'. eDone env mKR elected epoch rk st = Inr st' \<and> dist_inv K st'"
proof -
  have "dist_inv K (subscribe MRTopic (subscribe KRTopic
          (st\<lparr>m_keyMaker := elected, m_KMepoch := epoch\<rparr>)))"
    using assms(2) by simp
  from dist_inv_sgkeyTimeout [OF assms(1) this, of env rk] assms(2)
  show ?thesis by (cases elected) (simp_all add: eDone_def Let_def)
qed

lemma dist_inv_timerFires:
  assumes "0 < mKR" and "dist_inv K st"
  shows "\<exists>st'. timerFires env mKR i now rk st = Inr st' \<and> dist_inv K st'"
proof (cases "find (\<lambda>t. fst t = i) (timers st)")
  case None
  with assms show ?thesis by (simp add: timerFires_def)
next
  case (Some t)
  let ?s = "st\<lparr>timers := filter (\<lambda>t. fst t \<noteq> i) (timers st)\<rparr>"
  have d: "dist_inv K ?s" using assms(2) by (rule dist_inv_drop_timer)
  show ?thesis
  proof (cases "fst (snd t)")
    case MRRefresh
    with Some d show ?thesis
      by (simp add: timerFires_def Let_def dist_inv_publishMembershipReq)
  next
    case DelayedMR
    with Some d show ?thesis
      by (simp add: timerFires_def Let_def dist_inv_publishMembershipReq)
  next
    case ReKey
    with Some dist_inv_sgkeyTimeout [OF assms(1) d, of env rk] show ?thesis
      by (simp add: timerFires_def Let_def)
  qed
qed

lemma dist_inv_updateSigningKey:
  "dist_inv K s \<Longrightarrow> updateSigningKey env now sk c s = Inr s' \<Longrightarrow> dist_inv K s'"
  by (auto simp: updateSigningKey_def Let_def split_beta std_runtime_error_def
      dist_inv_publishMembershipReq split: if_splits)

lemma dist_inv_setup: "dist_inv K s \<Longrightarrow> dist_inv K (setup_ccb env s)"
  by (simp add: setup_ccb_def Let_def dist_inv_initDone)

lemma dist_inv_step:
  assumes "0 < mKR" and "dist_inv K s"
  shows "\<exists>s'. step env mKR ev s = Inr s' \<and> dist_inv K s'"
proof (cases ev)
  case (RecvKeyRec now p)
  with assms show ?thesis by (simp add: dist_inv_receiveSGKeyRecords)
next
  case (RecvMemReq now tp)
  with assms show ?thesis by (simp add: dist_inv_addGroupMem)
next
  case (TimerFires i now rk)
  with dist_inv_timerFires [OF assms] show ?thesis by simp
next
  case (Confirmed f)
  with assms show ?thesis by (simp add: dist_inv_initDone)
next
  case (ElectionDone elected epoch rk)
  with dist_inv_eDone [OF assms] show ?thesis by simp
next
  case (RemoveGroupMem tp reKey rk)
  with dist_inv_removeGroupMem [OF assms] show ?thesis by simp
next
  case (UpdateSigningKey now sk c)
  with assms(2) show ?thesis
    by (auto simp: dist_inv_updateSigningKey split: sum.splits)
next
  case Setup
  with assms show ?thesis by (simp add: dist_inv_setup)
qed

lemma dist_inv_run:
  assumes "0 < mKR" and "dist_inv K s"
  shows "\<exists>s'. run env mKR evs s = Inr s' \<and> dist_inv K s'"
  using assms(2)
proof (induction evs arbitrary: s)
  case Nil
  then show ?case by simp
next
  case (Cons ev evs)
  from dist_inv_step [OF assms(1) Cons.prems, of env ev] obtain s1 where
    "step env mKR ev s = Inr s1" "dist_inv K s1" by blast
  with Cons.IH [of s1] show ?case by simp
qed

lemma dist_inv_ctor:
  "DistSGKey_ctor env now sk c rki rkr = Inr s \<Longrightarrow> dist_inv (rki + rkr) s \<and> m_init s"
  by (auto simp: DistSGKey_ctor_def updateSigningKey_def Let_def split_beta
      std_runtime_error_def dist_inv_def split: if_splits)

end
